theory Spec2Isabelle
  imports Complex_Main "HOL-Library.Multiset"
begin

section \<open>JavaScript numbers\<close>

text \<open>
  The benchmarking suite (\<^verbatim>\<open>performance-benchmarking/index.ts\<close>) computes with JavaScript
  numbers. A number is modelled as an exact rational, or one of the three special values
  \<^verbatim>\<open>Infinity\<close>, \<^verbatim>\<open>-Infinity\<close> and \<^verbatim>\<open>NaN\<close>, with the arithmetic of ECMAScript on the
  special values written out. The rounding error of binary floating point, overflow of a
  finite result and the sign of zero are not part of the model: every zero is \<^verbatim>\<open>+0\<close>
  (the zeros the program divides by are array lengths, counts and differences of clock
  readings, which are \<^verbatim>\<open>+0\<close>).
\<close>

datatype jsnum = Fin rat | PInf | NInf | NaN

fun jadd :: "jsnum \<Rightarrow> jsnum \<Rightarrow> jsnum" where
  "jadd NaN _ = NaN"
| "jadd _ NaN = NaN"
| "jadd (Fin a) (Fin b) = Fin (a + b)"
| "jadd PInf NInf = NaN"
| "jadd NInf PInf = NaN"
| "jadd PInf _ = PInf"
| "jadd _ PInf = PInf"
| "jadd NInf _ = NInf"
| "jadd _ NInf = NInf"

text \<open>An infinity with the sign of a non-zero rational.\<close>

definition signed_inf :: "rat \<Rightarrow> jsnum" where
  "signed_inf a = (if 0 < a then PInf else NInf)"

fun jmul :: "jsnum \<Rightarrow> jsnum \<Rightarrow> jsnum" where
  "jmul NaN _ = NaN"
| "jmul _ NaN = NaN"
| "jmul (Fin a) (Fin b) = Fin (a * b)"
| "jmul (Fin a) PInf = (if a = 0 then NaN else signed_inf a)"
| "jmul (Fin a) NInf = (if a = 0 then NaN else signed_inf (- a))"
| "jmul PInf (Fin b) = (if b = 0 then NaN else signed_inf b)"
| "jmul NInf (Fin b) = (if b = 0 then NaN else signed_inf (- b))"
| "jmul PInf PInf = PInf"
| "jmul PInf NInf = NInf"
| "jmul NInf PInf = NInf"
| "jmul NInf NInf = PInf"

fun jdiv :: "jsnum \<Rightarrow> jsnum \<Rightarrow> jsnum" where
  "jdiv NaN _ = NaN"
| "jdiv _ NaN = NaN"
| "jdiv (Fin a) (Fin b) =
     (if b \<noteq> 0 then Fin (a / b) else if a = 0 then NaN else signed_inf a)"
| "jdiv (Fin a) _ = Fin 0"
| "jdiv PInf (Fin b) = (if 0 \<le> b then PInf else NInf)"
| "jdiv NInf (Fin b) = (if 0 \<le> b then NInf else PInf)"
| "jdiv _ _ = NaN"

text \<open>The comparisons \<^verbatim>\<open>a > b\<close>, \<^verbatim>\<open>a < b\<close> and \<^verbatim>\<open>a <= b\<close>: false as soon as one side is \<^verbatim>\<open>NaN\<close>.\<close>

fun jlt :: "jsnum \<Rightarrow> jsnum \<Rightarrow> bool" where
  "jlt NaN _ = False"
| "jlt _ NaN = False"
| "jlt (Fin a) (Fin b) = (a < b)"
| "jlt _ NInf = False"
| "jlt NInf _ = True"
| "jlt PInf _ = False"
| "jlt _ PInf = True"

definition jgt :: "jsnum \<Rightarrow> jsnum \<Rightarrow> bool" where
  "jgt a b = jlt b a"

definition jle :: "jsnum \<Rightarrow> jsnum \<Rightarrow> bool" where
  "jle a b = (jlt a b \<or> (a \<noteq> NaN \<and> a = b))"

text \<open>\<^verbatim>\<open>Math.round\<close> rounds to the nearest integer, a tie towards \<^verbatim>\<open>+Infinity\<close>;
  \<^verbatim>\<open>Math.floor\<close> rounds down. Both leave the special values as they are.\<close>

fun Math_round :: "jsnum \<Rightarrow> jsnum" where
  "Math_round (Fin a) = Fin (of_int \<lfloor>a + 1 / 2\<rfloor>)"
| "Math_round x = x"

fun Math_floor :: "jsnum \<Rightarrow> jsnum" where
  "Math_floor (Fin a) = Fin (of_int \<lfloor>a\<rfloor>)"
| "Math_floor x = x"

text \<open>\<^verbatim>\<open>Math.max(...xs)\<close>: \<^verbatim>\<open>-Infinity\<close> for no argument, \<^verbatim>\<open>NaN\<close> as soon as one argument
  is \<^verbatim>\<open>NaN\<close>.\<close>

fun jmax2 :: "jsnum \<Rightarrow> jsnum \<Rightarrow> jsnum" where
  "jmax2 NaN _ = NaN"
| "jmax2 _ NaN = NaN"
| "jmax2 a b = (if jlt a b then b else a)"

definition Math_max :: "jsnum list \<Rightarrow> jsnum" where
  "Math_max xs = foldl jmax2 NInf xs"

text \<open>\<^verbatim>\<open>xs[i]\<close> for an array of finite numbers and a numeric index: \<^verbatim>\<open>undefined\<close> unless
  \<open>i\<close> is an integer within the array, and \<^verbatim>\<open>undefined\<close> becomes \<^verbatim>\<open>NaN\<close> in the
  arithmetic that follows every such read in this program.\<close>

fun js_index :: "rat list \<Rightarrow> jsnum \<Rightarrow> jsnum" where
  "js_index xs (Fin i) =
     (if i = of_int \<lfloor>i\<rfloor> \<and> 0 \<le> i \<and> \<lfloor>i\<rfloor> < int (length xs) then Fin (xs ! nat \<lfloor>i\<rfloor>) else NaN)"
| "js_index xs _ = NaN"

text \<open>\<^verbatim>\<open>xs.length\<close> as a number.\<close>

definition js_length :: "'a list \<Rightarrow> jsnum" where
  "js_length xs = Fin (of_nat (length xs))"

section \<open>Errors and results\<close>

text \<open>A thrown \<^verbatim>\<open>Error\<close> with its message; a computation that may throw returns
  \<open>Inl\<close> of the error or \<open>Inr\<close> of its value.\<close>

datatype error = Error string

section \<open>The statistics engine\<close>

record BenchmarkResult =
  operation :: string
  iterations :: nat
  totalTimeMs :: int
  avgTimeMs :: jsnum
  minTimeMs :: jsnum
  maxTimeMs :: jsnum
  p50Ms :: jsnum
  p95Ms :: jsnum
  p99Ms :: jsnum
  opsPerSecond :: jsnum
  success :: nat
  errors :: nat
  errorRate :: jsnum

record NetworkMetrics =
  facilitatorLatency :: jsnum
  rpcLatency :: jsnum
  totalRoundTrips :: nat
  dataTransferred :: nat

text \<open>The benchmarker object: its field \<^verbatim>\<open>measurements\<close>, the samples of the last run.
  A sample is a difference of two readings of \<^verbatim>\<open>performance.now()\<close>, a finite number.
  (The field \<^verbatim>\<open>client\<close> is passed to the one method that uses it.)\<close>

record PerformanceBenchmarker =
  measurements :: "rat list"

text \<open>\<^verbatim>\<open>Math.round(x * 100) / 100\<close>, the rounding to two decimals of every millisecond field.\<close>

definition round2 :: "jsnum \<Rightarrow> jsnum" where
  "round2 x = jdiv (Math_round (jmul x (Fin 100))) (Fin 100)"

text \<open>\<^verbatim>\<open>sorted[Math.floor(sorted.length * q)]\<close>. The literals \<^verbatim>\<open>0.5\<close>, \<^verbatim>\<open>0.95\<close> and \<^verbatim>\<open>0.99\<close>
  are the rationals \<open>1/2\<close>, \<open>95/100\<close> and \<open>99/100\<close>: for these three and every array length
  below \<open>2^32\<close> the floor of the double-precision product is the floor of the exact
  product (the doubles nearest to 0.95 and 0.99 are below them by a relative error under
  \<open>2^-54\<close>, so a product that is an integer exactly rounds to that integer).\<close>

definition percentile :: "rat list \<Rightarrow> rat \<Rightarrow> jsnum" where
  "percentile sorted_ms q = js_index sorted_ms (Math_floor (jmul (js_length sorted_ms) (Fin q)))"

definition calculateStats ::
  "PerformanceBenchmarker \<Rightarrow> string \<Rightarrow> nat \<Rightarrow> int \<Rightarrow> nat \<Rightarrow> nat \<Rightarrow> error + BenchmarkResult" where
  "calculateStats self op iters totalMs succ errs =
     (if length (measurements self) = 0 then Inl (Error ''No measurements recorded'')
      else
        let sorted_ms = sort (measurements self);
            avg = jdiv (Fin (foldl (+) 0 (measurements self))) (js_length (measurements self))
        in Inr \<lparr> operation = op,
                 iterations = iters,
                 totalTimeMs = totalMs,
                 avgTimeMs = round2 avg,
                 minTimeMs = round2 (js_index sorted_ms (Fin 0)),
                 maxTimeMs = round2 (js_index sorted_ms (jadd (js_length sorted_ms) (Fin (- 1)))),
                 p50Ms = round2 (percentile sorted_ms (1 / 2)),
                 p95Ms = round2 (percentile sorted_ms (95 / 100)),
                 p99Ms = round2 (percentile sorted_ms (99 / 100)),
                 opsPerSecond =
                   Math_round (jmul (jdiv (Fin (of_nat iters)) (Fin (of_int totalMs))) (Fin 1000)),
                 success = succ,
                 errors = errs,
                 errorRate =
                   jdiv (Math_round
                           (jmul (jmul (jdiv (Fin (of_nat errs)) (Fin (of_nat iters))) (Fin 100))
                              (Fin 100)))
                     (Fin 100) \<rparr>)"

section \<open>The benchmark harness\<close>

text \<open>
  The operation under test, \<^verbatim>\<open>testFn\<close>, is an opaque asynchronous callable. What the harness
  observes of its \<open>k\<close>-th call is whether the promise resolved (\<open>Inr\<close>) or rejected
  (\<open>Inl\<close>), and the time between the two readings of \<^verbatim>\<open>performance.now()\<close> around it.
  Call \<open>0\<close> is the warm-up, call \<open>i + 1\<close> is trial \<open>i\<close>. The number of iterations
  asked for is a count, a natural number.
\<close>

type_synonym 'a testFn = "nat \<Rightarrow> (error + 'a) \<times> rat"

text \<open>The measured loop \<^verbatim>\<open>for (let i = 0; i < iterations; i++)\<close> over the samples and the two
  counters. The text of the progress spinner is not modelled. The harness throws away what a
  call of the operation returns; the loop of the model keeps it, in \<open>calls\<close>, as the record
  of the calls the run has made, in the order it made them.\<close>

function trials ::
  "'a testFn \<Rightarrow> nat \<Rightarrow> nat \<Rightarrow> rat list \<times> nat \<times> nat \<times> (error + 'a) list \<Rightarrow>
     rat list \<times> nat \<times> nat \<times> (error + 'a) list" where
  "trials testFn iters i (ms, successCount, errorCount, calls) =
     (if i < iters then
        (case testFn (Suc i) of
           (Inr v, iterationTime) \<Rightarrow>
             trials testFn iters (Suc i)
               (ms @ [iterationTime], Suc successCount, errorCount, calls @ [Inr v])
         | (Inl e, iterationTime) \<Rightarrow>
             trials testFn iters (Suc i)
               (ms @ [iterationTime], successCount, Suc errorCount, calls @ [Inl e]))
      else (ms, successCount, errorCount, calls))"
  by pat_completeness auto
termination
  by (relation "measure (\<lambda>(testFn, iters, i, acc). iters - i)") auto

text \<open>\<^verbatim>\<open>benchmark(operation, testFn, iterations)\<close>: the warm-up call, whose failure is only
  reported, the measured loop, and the statistics. \<open>totalTime\<close> is the difference of
  the two readings of \<^verbatim>\<open>Date.now()\<close>. The method returns its result and leaves the samples
  in the object. \<open>benchmark_traced\<close> is the method together with the record of its calls of
  the operation, the warm-up first; \<open>benchmark\<close> is what the caller gets.\<close>

definition benchmark_traced ::
  "PerformanceBenchmarker \<Rightarrow> string \<Rightarrow> 'a testFn \<Rightarrow> nat \<Rightarrow> int \<Rightarrow>
     (error + BenchmarkResult) \<times> PerformanceBenchmarker \<times> (error + 'a) list" where
  "benchmark_traced self op testFn iters totalTime =
     (let warmup = fst (testFn 0);
          (ms, successCount, errorCount, calls) = trials testFn iters 0 ([], 0, 0, [warmup]);
          self' = self\<lparr>measurements := ms\<rparr>
      in (calculateStats self' op iters totalTime successCount errorCount, self', calls))"

definition benchmark ::
  "PerformanceBenchmarker \<Rightarrow> string \<Rightarrow> 'a testFn \<Rightarrow> nat \<Rightarrow> int \<Rightarrow>
     (error + BenchmarkResult) \<times> PerformanceBenchmarker" where
  "benchmark self op testFn iters totalTime =
     (case benchmark_traced self op testFn iters totalTime of
        (result, self', calls) \<Rightarrow> (result, self'))"

section \<open>The batch benchmark\<close>

text \<open>\<^verbatim>\<open>xs.slice(a, b)\<close> for integers \<open>a\<close> and \<open>b\<close>: a negative bound counts from the end,
  both bounds are clamped to the array.\<close>

definition js_slice :: "'a list \<Rightarrow> int \<Rightarrow> int \<Rightarrow> 'a list" where
  "js_slice xs a b =
     (let len = int (length xs);
          from = (if a < 0 then max (len + a) 0 else min a len);
          to = (if b < 0 then max (len + b) 0 else min b len)
      in take (nat (to - from)) (drop (nat from) xs))"

text \<open>The partition loop
  \<^verbatim>\<open>for (let i = 0; i < endpoints.length; i += concurrency) batches.push(endpoints.slice(i, i + concurrency))\<close>.
  Nothing in the code keeps \<^verbatim>\<open>concurrency\<close> positive, so the loop may run forever; not
  returning is the value \<open>None\<close>.\<close>

partial_function (option) batches_loop ::
  "string list \<Rightarrow> int \<Rightarrow> int \<Rightarrow> string list list \<Rightarrow> string list list option" where
  "batches_loop endpoints concurrency i batches =
     (if i < int (length endpoints)
      then batches_loop endpoints concurrency (i + concurrency)
             (batches @ [js_slice endpoints i (i + concurrency)])
      else Some batches)"

text \<open>What \<^verbatim>\<open>client.get(endpoint)\<close> settles to: a response, a rejection whose error carries
  \<^verbatim>\<open>response.status\<close>, or a rejection without one.\<close>

datatype get_outcome = Response | StatusError int | OtherError

datatype settled = Fulfilled | Rejected

text \<open>\<^verbatim>\<open>client.get(endpoint).catch(e => { if (e.response?.status !== 402) throw e; })\<close>\<close>

definition guarded_get :: "(string \<Rightarrow> get_outcome) \<Rightarrow> string \<Rightarrow> error + unit" where
  "guarded_get client endpoint =
     (case client endpoint of
        Response \<Rightarrow> Inr ()
      | StatusError status \<Rightarrow>
          (if status \<noteq> 402 then Inl (Error ''request failed'') else Inr ())
      | OtherError \<Rightarrow> Inl (Error ''request failed''))"

text \<open>\<^verbatim>\<open>Promise.allSettled\<close> waits for every promise and never rejects;
  \<^verbatim>\<open>Promise.all\<close> rejects with the first rejection.\<close>

definition Promise_allSettled :: "(error + 'a) list \<Rightarrow> error + settled list" where
  "Promise_allSettled ps = Inr (map (\<lambda>p. case p of Inl _ \<Rightarrow> Rejected | Inr _ \<Rightarrow> Fulfilled) ps)"

fun Promise_all :: "(error + 'a) list \<Rightarrow> error + 'a list" where
  "Promise_all [] = Inr []"
| "Promise_all (Inl e # ps) = Inl e"
| "Promise_all (Inr v # ps) = (case Promise_all ps of Inl e \<Rightarrow> Inl e | Inr vs \<Rightarrow> Inr (v # vs))"

text \<open>The operation the batch benchmark times:
  \<^verbatim>\<open>async () => { for (const batch of batches) { await Promise.allSettled(batch.map(...)) } }\<close>.
  One call walks through all the batches. The callable returns nothing; the model returns,
  as a record of what one call did, the settled outcomes of every awaited group.\<close>

fun batch_testFn :: "(string \<Rightarrow> get_outcome) \<Rightarrow> string list list \<Rightarrow> error + settled list list" where
  "batch_testFn client [] = Inr []"
| "batch_testFn client (batch # rest) =
     (case Promise_allSettled (map (guarded_get client) batch) of
        Inl e \<Rightarrow> Inl e
      | Inr outcomes \<Rightarrow>
          (case batch_testFn client rest of
             Inl e \<Rightarrow> Inl e
           | Inr others \<Rightarrow> Inr (outcomes # others)))"

text \<open>Decimal digits of a number, for the label of the benchmark.\<close>

fun digits :: "nat \<Rightarrow> string" where
  "digits n = (if n < 10 then [char_of (48 + n)] else digits (n div 10) @ [char_of (48 + n mod 10)])"

definition show_int :: "int \<Rightarrow> string" where
  "show_int k = (if k < 0 then ''-'' @ digits (nat (- k)) else digits (nat k))"

text \<open>\<^verbatim>\<open>benchmarkBatchOperations(endpoints, concurrency)\<close>. \<open>client k\<close> is the behaviour of
  the payment client during the \<open>k\<close>-th call of the operation and \<open>elapsed k\<close> the time
  that call takes. The value is the result of \<^verbatim>\<open>this.benchmark\<close>, the object, and the record
  of the calls of the timed operation: for each call, the settled outcomes of every group it
  awaited.\<close>

definition benchmarkBatchOperations ::
  "PerformanceBenchmarker \<Rightarrow> (nat \<Rightarrow> string \<Rightarrow> get_outcome) \<Rightarrow> (nat \<Rightarrow> rat) \<Rightarrow> int \<Rightarrow>
     string list \<Rightarrow> int \<Rightarrow>
     ((error + BenchmarkResult) \<times> PerformanceBenchmarker \<times> (error + settled list list) list)
       option" where
  "benchmarkBatchOperations self client elapsed totalTime endpoints concurrency =
     (case batches_loop endpoints concurrency 0 [] of
        None \<Rightarrow> None
      | Some batches \<Rightarrow>
          Some (benchmark_traced self
                  (''Batch Operations (concurrency: '' @ show_int concurrency @ '')'')
                  (\<lambda>k. (batch_testFn (client k) batches, elapsed k))
                  (min 10 (length batches))
                  totalTime))"

section \<open>The network analyzer\<close>

text \<open>The network as the two probes see it: a request either fails (\<^verbatim>\<open>fetch\<close> or
  \<^verbatim>\<open>response.json()\<close> throws) or completes, after the elapsed time given.\<close>

datatype request = Get string | PostBlockNumber string

type_synonym network = "request \<Rightarrow> error + rat"

definition measureFacilitatorLatency :: "network \<Rightarrow> string \<Rightarrow> error + rat" where
  "measureFacilitatorLatency net facilitatorUrl =
     (case net (Get (facilitatorUrl @ ''/supported'')) of
        Inr t \<Rightarrow> Inr t
      | Inl e \<Rightarrow> Inr (- 1))"

definition measureRpcLatency :: "network \<Rightarrow> string \<Rightarrow> error + rat" where
  "measureRpcLatency net rpcUrl =
     (case net (PostBlockNumber rpcUrl) of
        Inr t \<Rightarrow> Inr t
      | Inl e \<Rightarrow> Inr (- 1))"

definition facilitators :: "string list" where
  "facilitators =
     [''https://facilitator.x402.org'',
      ''https://facilitator.thirdweb.com'',
      ''https://facilitator.xpay.sh'']"

definition rpcEndpoints :: "string list" where
  "rpcEndpoints =
     [''https://mainnet.base.org'',
      ''https://base-mainnet.public.blastapi.io'',
      ''https://base.gateway.tenderly.co'']"

text \<open>The aggregate of one class of probes, written twice in \<^verbatim>\<open>analyzeNetwork\<close>:
  \<^verbatim>\<open>valid = latencies.filter(l => l > 0)\<close>, then
  \<^verbatim>\<open>valid.length > 0 ? valid.reduce((sum, l) => sum + l, 0) / valid.length : -1\<close>.\<close>

definition class_latency :: "rat list \<Rightarrow> jsnum" where
  "class_latency latencies =
     (let valid = filter (\<lambda>l. l > 0) latencies
      in if length valid > 0 then jdiv (Fin (foldl (+) 0 valid)) (js_length valid)
         else Fin (- 1))"

definition analyzeNetwork :: "network \<Rightarrow> error + NetworkMetrics" where
  "analyzeNetwork net =
     (case Promise_all (map (measureFacilitatorLatency net) facilitators) of
        Inl e \<Rightarrow> Inl e
      | Inr facilitatorLatencies \<Rightarrow>
          (case Promise_all (map (measureRpcLatency net) rpcEndpoints) of
             Inl e \<Rightarrow> Inl e
           | Inr rpcLatencies \<Rightarrow>
               Inr \<lparr> facilitatorLatency = class_latency facilitatorLatencies,
                     rpcLatency = class_latency rpcLatencies,
                     totalRoundTrips = length facilitators + length rpcEndpoints,
                     dataTransferred = 0 \<rparr>))"

section \<open>The recommendation engine\<close>

text \<open>The four rule blocks of \<^verbatim>\<open>displayOptimizations\<close>, each a heading and its indented
  suggestions. The bullet glyph of the source is written \<open>*\<close>.\<close>

definition high_latency_block :: "string list" where
  "high_latency_block =
     [''High average latency detected. Consider:'',
      ''  * Using a closer RPC endpoint'',
      ''  * Implementing request caching'',
      ''  * Using connection pooling'']"

definition facilitator_block :: "string list" where
  "facilitator_block =
     [''Facilitator latency is high. Consider:'',
      ''  * Using a geographically closer facilitator'',
      ''  * Implementing facilitator health checking'']"

definition error_rate_block :: "string list" where
  "error_rate_block =
     [''Error rate is elevated. Consider:'',
      ''  * Implementing retry logic with exponential backoff'',
      ''  * Adding circuit breaker patterns'',
      ''  * Monitoring facilitator health'']"

definition low_throughput_block :: "string list" where
  "low_throughput_block =
     [''Low throughput detected. Consider:'',
      ''  * Batching requests when possible'',
      ''  * Using connection keep-alive'',
      ''  * Optimizing payload sizes'']"

text \<open>The local array \<^verbatim>\<open>recommendations\<close> after the four \<^verbatim>\<open>if\<close> statements, each of which
  pushes its block when its condition holds.\<close>

definition recommendations_of :: "BenchmarkResult list \<Rightarrow> NetworkMetrics \<Rightarrow> string list" where
  "recommendations_of results networkMetrics =
     (let recommendations = [];
          avgLatency =
            jdiv (foldl (\<lambda>sum r. jadd sum (avgTimeMs r)) (Fin 0) results) (js_length results);
          recommendations =
            (if jgt avgLatency (Fin 500) then recommendations @ high_latency_block
             else recommendations);
          recommendations =
            (if jgt (facilitatorLatency networkMetrics) (Fin 200)
             then recommendations @ facilitator_block
             else recommendations);
          recommendations =
            (if list_ex (\<lambda>r. jgt (errorRate r) (Fin 5)) results
             then recommendations @ error_rate_block
             else recommendations);
          maxOps = Math_max (map opsPerSecond results);
          recommendations =
            (if jlt maxOps (Fin 10) then recommendations @ low_throughput_block
             else recommendations)
      in recommendations)"

text \<open>A line written by \<^verbatim>\<open>console.log\<close>, with the colour \<^verbatim>\<open>chalk\<close> gives it. The emoji that
  open three of the lines are left out of the text and the rule of box-drawing glyphs is
  written with \<open>=\<close>; every other character is kept.\<close>

datatype console_line = Blue string | Gray string | Green string | Yellow string

definition startsWith :: "string \<Rightarrow> string \<Rightarrow> bool" where
  "startsWith s p = (take (length p) s = p)"

definition no_action_line :: console_line where
  "no_action_line = Green '' Performance looks good! No immediate optimizations needed.''"

definition banner :: "console_line list" where
  "banner =
     [Blue (CHR 0x0A # '' Performance Optimization Recommendations''),
      Gray (replicate 80 (CHR ''=''))]"

definition displayOptimizations :: "BenchmarkResult list \<Rightarrow> NetworkMetrics \<Rightarrow> console_line list" where
  "displayOptimizations results networkMetrics =
     (let recommendations = recommendations_of results networkMetrics
      in banner @
         (if length recommendations = 0 then [no_action_line]
          else map (\<lambda>rec. if startsWith rec ''  '' then Gray rec else Yellow (''  '' @ rec))
                 recommendations))"

section \<open>Vocabulary of the properties\<close>





text \<open>How one request of a group settles for a client.\<close>

definition settle :: "(string \<Rightarrow> get_outcome) \<Rightarrow> string \<Rightarrow> settled" where
  "settle client endpoint =
     (case guarded_get client endpoint of Inl _ \<Rightarrow> Rejected | Inr _ \<Rightarrow> Fulfilled)"

text \<open>The reading of the batch benchmark in which a trial times one group: the call of trial
  \<open>i\<close> settles group \<open>i\<close> and nothing else.\<close>

definition one_group_per_trial ::
  "(nat \<Rightarrow> string \<Rightarrow> get_outcome) \<Rightarrow> string list list \<Rightarrow> (error + settled list list) list \<Rightarrow> bool" where
  "one_group_per_trial client batches calls =
     list_all (\<lambda>i. calls ! Suc i = Inr [map (settle (client (Suc i))) (batches ! i)])
       [0..<length calls - 1]"

text \<open>The percentile index in the words of the specification: \<open>floor(n * q)\<close>, clamped to
  \<open>[0, n - 1]\<close>.\<close>

definition spec_index :: "nat \<Rightarrow> rat \<Rightarrow> nat" where
  "spec_index n q = nat (max 0 (min (int n - 1) \<lfloor>rat_of_nat n * q\<rfloor>))"

text \<open>The consecutive groups of \<open>k\<close> of a list: group \<open>j\<close> holds the elements from position
  \<open>j * k\<close> up to, and without, position \<open>j * k + k\<close>; there are \<open>ceiling (n / k)\<close> groups.\<close>

definition groups_of :: "nat \<Rightarrow> 'a list \<Rightarrow> 'a list list" where
  "groups_of k xs = map (\<lambda>j. take k (drop (j * k) xs)) [0..<(length xs + k - 1) div k]"

text \<open>Twelve endpoints, for the example of the specification.\<close>

definition twelve_endpoints :: "string list" where
  "twelve_endpoints =
     [''http://localhost:3000/api0'', ''http://localhost:3000/api1'',
      ''http://localhost:3000/api2'', ''http://localhost:3000/api3'',
      ''http://localhost:3000/api4'', ''http://localhost:3000/api5'',
      ''http://localhost:3000/api6'', ''http://localhost:3000/api7'',
      ''http://localhost:3000/api8'', ''http://localhost:3000/api9'',
      ''http://localhost:3000/api10'', ''http://localhost:3000/api11'']"

text \<open>The latency a probe returns for an outcome of its request.\<close>

definition probe_latency :: "error + rat \<Rightarrow> rat" where
  "probe_latency p = (case p of Inr t \<Rightarrow> t | Inl _ \<Rightarrow> - 1)"

text \<open>The elapsed times of the probes of a class that completed.\<close>

definition successes :: "(error + rat) list \<Rightarrow> rat list" where
  "successes probes = List.map_filter (\<lambda>p. case p of Inl _ \<Rightarrow> None | Inr t \<Rightarrow> Some t) probes"

text \<open>The aggregate of a class in the words of the specification: the failed probes are left
  out, the others are averaged, and the value is the sentinel when no probe succeeded.\<close>

definition spec_class_latency :: "(error + rat) list \<Rightarrow> jsnum" where
  "spec_class_latency probes =
     (if successes probes = [] then Fin (- 1)
      else Fin (sum_list (successes probes) / rat_of_nat (length (successes probes))))"

text \<open>The mean of the strictly positive elapsed times of the probes that completed, the
  sentinel when there is none.\<close>

definition positive_mean :: "(error + rat) list \<Rightarrow> jsnum" where
  "positive_mean probes =
     (let pos = filter (\<lambda>t. 0 < t) (successes probes)
      in if pos = [] then Fin (- 1) else Fin (sum_list pos / rat_of_nat (length pos)))"

text \<open>Two networks: one where the first facilitator answers within the resolution of the clock
  (an elapsed time of zero), the second after 30 ms and nothing else answers; and one where
  every request fails.\<close>

definition zero_latency_net :: network where
  "zero_latency_net req =
     (if req = Get ''https://facilitator.x402.org/supported'' then Inr 0
      else if req = Get ''https://facilitator.thirdweb.com/supported'' then Inr 30
      else Inl (Error ''fetch failed''))"

definition dead_net :: network where
  "dead_net req = Inl (Error ''fetch failed'')"

text \<open>The conditions of the four rules, in the order of the table of the specification: the
  mean of the results' \<open>avgTimeMs\<close> is above 500; \<open>facilitatorLatency\<close> is above 200; some
  result has an \<open>errorRate\<close> above 5; the largest \<open>opsPerSecond\<close> is below 10.\<close>

definition high_latency_rule :: "BenchmarkResult list \<Rightarrow> bool" where
  "high_latency_rule results =
     jgt (jdiv (foldl (\<lambda>sum r. jadd sum (avgTimeMs r)) (Fin 0) results) (js_length results)) (Fin 500)"

definition facilitator_rule :: "NetworkMetrics \<Rightarrow> bool" where
  "facilitator_rule networkMetrics = jgt (facilitatorLatency networkMetrics) (Fin 200)"

definition error_rate_rule :: "BenchmarkResult list \<Rightarrow> bool" where
  "error_rate_rule results = list_ex (\<lambda>r. jgt (errorRate r) (Fin 5)) results"

definition low_throughput_rule :: "BenchmarkResult list \<Rightarrow> bool" where
  "low_throughput_rule results = jlt (Math_max (map opsPerSecond results)) (Fin 10)"

text \<open>How \<^verbatim>\<open>displayOptimizations\<close> prints an entry: an indented suggestion in gray, a heading
  in yellow behind the warning sign. The headings of a list of entries are the entries that
  are not indented, one for each recommendation.\<close>

definition render :: "string \<Rightarrow> console_line" where
  "render rec = (if startsWith rec ''  '' then Gray rec else Yellow (''  '' @ rec))"

definition headings :: "string list \<Rightarrow> string list" where
  "headings recommendations = filter (\<lambda>rec. \<not> startsWith rec ''  '') recommendations"

text \<open>The inputs of the two examples of the specification.\<close>

definition slow_result :: BenchmarkResult where
  "slow_result =
     \<lparr> operation = ''Payment Verification'', iterations = 25, totalTimeMs = 15000,
       avgTimeMs = Fin 600, minTimeMs = Fin 550, maxTimeMs = Fin 700, p50Ms = Fin 590,
       p95Ms = Fin 690, p99Ms = Fin 700, opsPerSecond = Fin 50, success = 25, errors = 0,
       errorRate = Fin 0 \<rparr>"

definition good_result :: BenchmarkResult where
  "good_result =
     \<lparr> operation = ''Payment Verification'', iterations = 25, totalTimeMs = 250,
       avgTimeMs = Fin 50, minTimeMs = Fin 40, maxTimeMs = Fin 70, p50Ms = Fin 50,
       p95Ms = Fin 65, p99Ms = Fin 70, opsPerSecond = Fin 100, success = 25, errors = 0,
       errorRate = Fin 0 \<rparr>"

definition near_network :: NetworkMetrics where
  "near_network =
     \<lparr> facilitatorLatency = Fin 50, rpcLatency = Fin 40, totalRoundTrips = 6, dataTransferred = 0 \<rparr>"

section \<open>Properties of the statistics engine and the harness\<close>


lemma floor_index_bounds:
  assumes "0 \<le> q" "q < 1" "0 < n"
  shows "0 \<le> \<lfloor>rat_of_nat n * q\<rfloor> \<and> \<lfloor>rat_of_nat n * q\<rfloor> < int n"
proof -
  have "rat_of_nat n * q < rat_of_nat n" using assms by simp
  then have "\<lfloor>rat_of_nat n * q\<rfloor> < int n"
    by (simp add: floor_less_iff)
  moreover have "0 \<le> rat_of_nat n * q" using assms by simp
  ultimately show ?thesis by simp
qed

lemma percentile_eq:
  assumes "0 \<le> q" "q < 1" "xs \<noteq> []"
  shows "percentile xs q = Fin (xs ! nat \<lfloor>rat_of_nat (length xs) * q\<rfloor>)"
  using floor_index_bounds[OF assms(1,2), of "length xs"] assms(3)
  by (simp add: percentile_def js_length_def)

lemma spec_index_eq:
  assumes "0 \<le> q" "q < 1" "0 < n"
  shows "spec_index n q = nat \<lfloor>rat_of_nat n * q\<rfloor>"
  using floor_index_bounds[OF assms] by (simp add: spec_index_def)

lemma round2_Fin: "round2 (Fin a) = Fin (of_int \<lfloor>a * 100 + 1 / 2\<rfloor> / 100)"
  by (simp add: round2_def)

lemma round2_mono: "a \<le> b \<Longrightarrow> jle (round2 (Fin a)) (round2 (Fin b))"
  by (auto simp add: round2_Fin jle_def divide_right_mono floor_mono less_le)

lemma last_index:
  assumes "xs \<noteq> []"
  shows "js_index xs (jadd (js_length xs) (Fin (- 1))) = Fin (xs ! (length xs - 1))"
proof -
  have "rat_of_nat (length xs) + - 1 = rat_of_int (int (length xs) - 1)" by simp
  then have "js_index xs (jadd (js_length xs) (Fin (- 1))) = js_index xs (Fin (rat_of_int (int (length xs) - 1)))"
    by (simp add: js_length_def)
  also have "\<dots> = Fin (xs ! nat (int (length xs) - 1))"
    using assms by (simp del: of_int_diff of_int_of_nat_eq)
  finally show ?thesis by (simp add: nat_diff_distrib')
qed

lemma first_index: "xs \<noteq> [] \<Longrightarrow> js_index xs (Fin 0) = Fin (xs ! 0)"
  by simp

lemma avg_Fin: "xs \<noteq> [] \<Longrightarrow> jdiv (Fin s) (js_length xs) = Fin (s / rat_of_nat (length xs))"
  by (simp add: js_length_def)

lemma calculateStats_nonempty:
  assumes "measurements self \<noteq> []"
  shows "calculateStats self op iters totalMs succ errs =
    Inr \<lparr> operation = op, iterations = iters, totalTimeMs = totalMs,
          avgTimeMs = round2 (Fin (foldl (+) 0 (measurements self) / rat_of_nat (length (measurements self)))),
          minTimeMs = round2 (Fin (sort (measurements self) ! 0)),
          maxTimeMs = round2 (Fin (sort (measurements self) ! (length (measurements self) - 1))),
          p50Ms = round2 (Fin (sort (measurements self) ! nat \<lfloor>rat_of_nat (length (measurements self)) * (1 / 2)\<rfloor>)),
          p95Ms = round2 (Fin (sort (measurements self) ! nat \<lfloor>rat_of_nat (length (measurements self)) * (95 / 100)\<rfloor>)),
          p99Ms = round2 (Fin (sort (measurements self) ! nat \<lfloor>rat_of_nat (length (measurements self)) * (99 / 100)\<rfloor>)),
          opsPerSecond = Math_round (jmul (jdiv (Fin (of_nat iters)) (Fin (of_int totalMs))) (Fin 1000)),
          success = succ, errors = errs,
          errorRate = jdiv (Math_round (jmul (jmul (jdiv (Fin (of_nat errs)) (Fin (of_nat iters))) (Fin 100)) (Fin 100))) (Fin 100) \<rparr>"
proof -
  have ne: "sort (measurements self) \<noteq> []" using assms by (metis length_sort length_0_conv)
  have p: "\<And>q. 0 \<le> q \<Longrightarrow> q < 1 \<Longrightarrow> percentile (sort (measurements self)) q =
      Fin (sort (measurements self) ! nat \<lfloor>rat_of_nat (length (measurements self)) * q\<rfloor>)"
    using percentile_eq[OF _ _ ne] by simp
  show ?thesis
    unfolding calculateStats_def Let_def
    using assms last_index[OF ne] first_index[OF ne] avg_Fin[OF assms] 
    by (simp add: p)
qed


lemma trials_acc:
  "i \<le> n \<Longrightarrow> trials testFn n i acc =
     (fst acc @ map (\<lambda>k. snd (testFn (Suc k))) [i..<n],
      fst (snd acc) + length (filter (\<lambda>k. \<not> isl (fst (testFn (Suc k)))) [i..<n]),
      fst (snd (snd acc)) + length (filter (\<lambda>k. isl (fst (testFn (Suc k)))) [i..<n]),
      snd (snd (snd acc)) @ map (\<lambda>k. fst (testFn (Suc k))) [i..<n])"
proof (induction testFn n i acc rule: trials.induct)
  case (1 testFn iters i ms successCount errorCount calls)
  show ?case
  proof (cases "i < iters")
    case False
    with "1.prems" show ?thesis by simp
  next
    case True
    obtain res t where tf: "testFn (Suc i) = (res, t)" by (cases "testFn (Suc i)")
    show ?thesis
    proof (cases res)
      case (Inl err)
      from "1.IH"(1)[OF True tf[symmetric] Inl] True tf Inl show ?thesis
        by (simp add: upt_conv_Cons)
    next
      case (Inr v)
      from "1.IH"(2)[OF True tf[symmetric] Inr] True tf Inr show ?thesis
        by (simp add: upt_conv_Cons)
    qed
  qed
qed

lemma benchmark_traced_eq:
  "benchmark_traced self op testFn n totalTime =
     (calculateStats (self\<lparr>measurements := map (\<lambda>k. snd (testFn (Suc k))) [0..<n]\<rparr>) op n totalTime
        (length (filter (\<lambda>k. \<not> isl (fst (testFn (Suc k)))) [0..<n]))
        (length (filter (\<lambda>k. isl (fst (testFn (Suc k)))) [0..<n])),
      self\<lparr>measurements := map (\<lambda>k. snd (testFn (Suc k))) [0..<n]\<rparr>,
      map (\<lambda>k. fst (testFn k)) [0..<Suc n])"
proof -
  have "map (\<lambda>k. fst (testFn k)) [0..<Suc n] = fst (testFn 0) # map (\<lambda>k. fst (testFn (Suc k))) [0..<n]"
    by (rule map_upt_Suc)
  then show ?thesis
    by (simp add: benchmark_traced_def trials_acc Let_def del: trials.simps upt_Suc)
qed

lemma benchmark_eq:
  "benchmark self op testFn n totalTime =
     (calculateStats (self\<lparr>measurements := map (\<lambda>k. snd (testFn (Suc k))) [0..<n]\<rparr>) op n totalTime
        (length (filter (\<lambda>k. \<not> isl (fst (testFn (Suc k)))) [0..<n]))
        (length (filter (\<lambda>k. isl (fst (testFn (Suc k)))) [0..<n])),
      self\<lparr>measurements := map (\<lambda>k. snd (testFn (Suc k))) [0..<n]\<rparr>)"
  by (simp add: benchmark_def benchmark_traced_eq del: upt_Suc)

lemma calculateStats_fields:
  "calculateStats self op iters totalMs succ errs = Inr r \<Longrightarrow>
     iterations r = iters \<and> success r = succ \<and> errors r = errs \<and> totalTimeMs r = totalMs \<and> operation r = op"
  by (auto simp add: calculateStats_def Let_def split: if_splits)


lemma count_split: "length (filter (\<lambda>k. \<not> P k) xs) + length (filter P xs) = length xs"
  by (induction xs) auto

text \<open>
  Claim C3. A run of the harness with \<open>n\<close> iterations leaves exactly \<open>n\<close> samples, the
  elapsed time of every trial in trial order, whether the trial resolved or rejected; in a
  returned result \<open>iterations\<close> is \<open>n\<close>, \<open>success + errors\<close> equals \<open>iterations\<close> and
  \<open>errors\<close> counts the rejected trials; and a run of at least one iteration returns a result.
\<close>

theorem benchmark_counts:
  "measurements (snd (benchmark self op testFn n totalTime)) = map (\<lambda>i. snd (testFn (Suc i))) [0..<n] \<and>
   length (measurements (snd (benchmark self op testFn n totalTime))) = n \<and>
   (\<forall>r. fst (benchmark self op testFn n totalTime) = Inr r \<longrightarrow>
        iterations r = n \<and> success r + errors r = iterations r \<and>
        errors r = length (filter (\<lambda>i. isl (fst (testFn (Suc i)))) [0..<n])) \<and>
   (0 < n \<longrightarrow> (\<exists>r. fst (benchmark self op testFn n totalTime) = Inr r))"
proof -
  let ?ms = "map (\<lambda>i. snd (testFn (Suc i))) [0..<n]"
  have a: "measurements (snd (benchmark self op testFn n totalTime)) = ?ms"
    by (simp add: benchmark_eq)
  have b: "length ?ms = n" by simp
  have c: "\<forall>r. fst (benchmark self op testFn n totalTime) = Inr r \<longrightarrow>
        iterations r = n \<and> success r + errors r = iterations r \<and>
        errors r = length (filter (\<lambda>i. isl (fst (testFn (Suc i)))) [0..<n])"
    using count_split[of "\<lambda>k. isl (fst (testFn (Suc k)))" "[0..<n]"]
    by (auto simp add: benchmark_eq dest!: calculateStats_fields)
  have d: "0 < n \<longrightarrow> (\<exists>r. fst (benchmark self op testFn n totalTime) = Inr r)"
  proof
    assume "0 < n"
    then have "measurements (self\<lparr>measurements := ?ms\<rparr>) \<noteq> []" by simp
    from calculateStats_nonempty[OF this] show "\<exists>r. fst (benchmark self op testFn n totalTime) = Inr r"
      by (simp add: benchmark_eq)
  qed
  from a b c d show ?thesis by (simp only: simp_thms)
qed

theorem benchmark_counts_witness:
  "\<exists>r. fst (benchmark \<lparr>measurements = []\<rparr> ''op''
            (\<lambda>k. if even k then (Inr (), 2) else (Inl (Error ''boom''), 3)) 3 7) = Inr r \<and>
        success r + errors r = 3 \<and> errors r = 2"
  using benchmark_counts[of "\<lparr>measurements = []\<rparr>" "''op''"
      "\<lambda>k. if even k then (Inr (), 2) else (Inl (Error ''boom''), 3)" 3 7]
  by (auto simp add: upt_rec)


lemma floor_rat_div_numeral [simp]:
  "\<lfloor>numeral a / numeral b :: rat\<rfloor> = numeral a div numeral b"
  using floor_divide_of_int_eq[of "numeral a" "numeral b", where ?'a = rat] by simp

lemma index_chain:
  fixes n :: nat
  assumes "0 < n"
  shows "nat \<lfloor>rat_of_nat n * (1 / 2)\<rfloor> \<le> nat \<lfloor>rat_of_nat n * (95 / 100)\<rfloor>"
    and "nat \<lfloor>rat_of_nat n * (95 / 100)\<rfloor> \<le> nat \<lfloor>rat_of_nat n * (99 / 100)\<rfloor>"
    and "nat \<lfloor>rat_of_nat n * (99 / 100)\<rfloor> \<le> n - 1"
proof -
  show "nat \<lfloor>rat_of_nat n * (1 / 2)\<rfloor> \<le> nat \<lfloor>rat_of_nat n * (95 / 100)\<rfloor>"
    by (intro nat_mono floor_mono mult_left_mono) simp_all
  show "nat \<lfloor>rat_of_nat n * (95 / 100)\<rfloor> \<le> nat \<lfloor>rat_of_nat n * (99 / 100)\<rfloor>"
    by (intro nat_mono floor_mono mult_left_mono) simp_all
  have "\<lfloor>rat_of_nat n * (99 / 100)\<rfloor> < int n"
    using floor_index_bounds[of "99 / 100" n] assms by simp
  then show "nat \<lfloor>rat_of_nat n * (99 / 100)\<rfloor> \<le> n - 1" by linarith
qed

lemma sort_nth_mono: "i \<le> j \<Longrightarrow> j < length xs \<Longrightarrow> sort xs ! i \<le> sort xs ! j"
  by (rule sorted_nth_mono) simp_all

text \<open>
  Claim C2. For every non-empty sample collection the statistics engine returns a result whose
  rounded fields satisfy \<open>minTimeMs \<le> p50Ms \<le> p95Ms \<le> p99Ms \<le> maxTimeMs\<close>.
\<close>

theorem stats_ordering:
  assumes "measurements self \<noteq> []"
  shows "\<exists>r. calculateStats self op iters totalMs succ errs = Inr r \<and>
           jle (minTimeMs r) (p50Ms r) \<and> jle (p50Ms r) (p95Ms r) \<and>
           jle (p95Ms r) (p99Ms r) \<and> jle (p99Ms r) (maxTimeMs r)"
proof -
  let ?xs = "measurements self"
  let ?n = "length ?xs"
  have n: "0 < ?n" using assms by simp
  note ch = index_chain[OF n]
  have lt: "?n - 1 < ?n" using n by simp
  have "sort ?xs ! 0 \<le> sort ?xs ! nat \<lfloor>rat_of_nat ?n * (1 / 2)\<rfloor>"
    using ch lt by (intro sort_nth_mono) linarith+
  moreover have "sort ?xs ! nat \<lfloor>rat_of_nat ?n * (1 / 2)\<rfloor> \<le> sort ?xs ! nat \<lfloor>rat_of_nat ?n * (95 / 100)\<rfloor>"
    using ch lt by (intro sort_nth_mono) linarith+
  moreover have "sort ?xs ! nat \<lfloor>rat_of_nat ?n * (95 / 100)\<rfloor> \<le> sort ?xs ! nat \<lfloor>rat_of_nat ?n * (99 / 100)\<rfloor>"
    using ch lt by (intro sort_nth_mono) linarith+
  moreover have "sort ?xs ! nat \<lfloor>rat_of_nat ?n * (99 / 100)\<rfloor> \<le> sort ?xs ! (?n - 1)"
    using ch lt by (intro sort_nth_mono) linarith+
  ultimately show ?thesis
    by (simp add: calculateStats_nonempty[OF assms] round2_mono)
qed

theorem stats_ordering_witness:
  "\<exists>r. calculateStats \<lparr>measurements = [7 / 3, 1 / 200, 12, 5]\<rparr> ''op'' 4 20 3 1 = Inr r \<and>
       jle (minTimeMs r) (p50Ms r) \<and> jle (p50Ms r) (p95Ms r) \<and>
       jle (p95Ms r) (p99Ms r) \<and> jle (p99Ms r) (maxTimeMs r) \<and>
       minTimeMs r = Fin (1 / 100) \<and> p50Ms r = Fin 5 \<and> maxTimeMs r = Fin 12"
proof -
  have ne: "measurements \<lparr>measurements = [7 / 3, 1 / 200, 12, 5 :: rat]\<rparr> \<noteq> []" by simp
  from stats_ordering[OF ne, of "''op''" 4 20 3 1] obtain r where
    r: "calculateStats \<lparr>measurements = [7 / 3, 1 / 200, 12, 5]\<rparr> ''op'' 4 20 3 1 = Inr r"
    and o: "jle (minTimeMs r) (p50Ms r)" "jle (p50Ms r) (p95Ms r)"
       "jle (p95Ms r) (p99Ms r)" "jle (p99Ms r) (maxTimeMs r)"
    by blast
  from r have "minTimeMs r = Fin (1 / 100) \<and> p50Ms r = Fin 5 \<and> maxTimeMs r = Fin 12"
    by (auto simp add: calculateStats_nonempty round2_Fin)
  with r o show ?thesis by blast
qed

lemma sorted_1_100: "sorted (map rat_of_nat [1..<101])"
  by (simp add: sorted_map sorted_wrt_iff_nth_less del: upt_Suc)

lemma sort_1_100:
  assumes "mset xs = mset (map rat_of_nat [1..<101])"
  shows "sort xs = map rat_of_nat [1..<101]" "length xs = 100"
proof -
  show "sort xs = map rat_of_nat [1..<101]"
    using properties_for_sort[OF _ sorted_1_100, of xs] assms by simp
  have "size (mset xs) = size (mset (map rat_of_nat [1..<101]))" using assms by simp
  then show "length xs = 100" by simp
qed

text \<open>
  Claim C1. For every non-empty sample collection of size \<open>n\<close>, each percentile field is the
  two-decimal rounding of one element of the ascending sort, the element at the index
  \<open>floor(n * q)\<close> clamped to \<open>[0, n - 1]\<close>, for \<open>q\<close> = 0.5, 0.95 and 0.99; and for the
  hundred samples 1, ..., 100, in any order, \<open>p50Ms = 51\<close>, \<open>p95Ms = 96\<close> and \<open>p99Ms = 100\<close>.
\<close>

theorem percentile_floor_index:
  assumes "measurements self \<noteq> []"
  shows "\<exists>r. calculateStats self op iters totalMs succ errs = Inr r \<and>
           p50Ms r = round2 (Fin (sort (measurements self) ! spec_index (length (measurements self)) (1 / 2))) \<and>
           p95Ms r = round2 (Fin (sort (measurements self) ! spec_index (length (measurements self)) (95 / 100))) \<and>
           p99Ms r = round2 (Fin (sort (measurements self) ! spec_index (length (measurements self)) (99 / 100))) \<and>
           (mset (measurements self) = mset (map rat_of_nat [1..<101]) \<longrightarrow>
              p50Ms r = Fin 51 \<and> p95Ms r = Fin 96 \<and> p99Ms r = Fin 100)"
proof -
  let ?xs = "measurements self"
  have n: "0 < length ?xs" using assms by simp
  have i: "spec_index (length ?xs) (1 / 2) = nat \<lfloor>rat_of_nat (length ?xs) * (1 / 2)\<rfloor>"
    "spec_index (length ?xs) (95 / 100) = nat \<lfloor>rat_of_nat (length ?xs) * (95 / 100)\<rfloor>"
    "spec_index (length ?xs) (99 / 100) = nat \<lfloor>rat_of_nat (length ?xs) * (99 / 100)\<rfloor>"
    using n by (simp_all add: spec_index_eq)
  have ex: "mset ?xs = mset (map rat_of_nat [1..<101]) \<Longrightarrow>
      round2 (Fin (sort ?xs ! nat \<lfloor>rat_of_nat (length ?xs) * (1 / 2)\<rfloor>)) = Fin 51 \<and>
      round2 (Fin (sort ?xs ! nat \<lfloor>rat_of_nat (length ?xs) * (95 / 100)\<rfloor>)) = Fin 96 \<and>
      round2 (Fin (sort ?xs ! nat \<lfloor>rat_of_nat (length ?xs) * (99 / 100)\<rfloor>)) = Fin 100"
    by (simp add: sort_1_100 round2_Fin del: upt_Suc)
  have "\<exists>r. calculateStats self op iters totalMs succ errs = Inr r \<and>
      p50Ms r = round2 (Fin (sort ?xs ! nat \<lfloor>rat_of_nat (length ?xs) * (1 / 2)\<rfloor>)) \<and>
      p95Ms r = round2 (Fin (sort ?xs ! nat \<lfloor>rat_of_nat (length ?xs) * (95 / 100)\<rfloor>)) \<and>
      p99Ms r = round2 (Fin (sort ?xs ! nat \<lfloor>rat_of_nat (length ?xs) * (99 / 100)\<rfloor>))"
    by (simp add: calculateStats_nonempty[OF assms])
  then obtain r where r: "calculateStats self op iters totalMs succ errs = Inr r"
    and p: "p50Ms r = round2 (Fin (sort ?xs ! nat \<lfloor>rat_of_nat (length ?xs) * (1 / 2)\<rfloor>))"
      "p95Ms r = round2 (Fin (sort ?xs ! nat \<lfloor>rat_of_nat (length ?xs) * (95 / 100)\<rfloor>))"
      "p99Ms r = round2 (Fin (sort ?xs ! nat \<lfloor>rat_of_nat (length ?xs) * (99 / 100)\<rfloor>))"
    by blast
  have e: "mset ?xs = mset (map rat_of_nat [1..<101]) \<longrightarrow>
      p50Ms r = Fin 51 \<and> p95Ms r = Fin 96 \<and> p99Ms r = Fin 100"
  proof
    assume "mset ?xs = mset (map rat_of_nat [1..<101])"
    from ex[OF this] show "p50Ms r = Fin 51 \<and> p95Ms r = Fin 96 \<and> p99Ms r = Fin 100"
      unfolding p .
  qed
  show ?thesis
  proof (intro exI[of _ r] conjI)
    show "calculateStats self op iters totalMs succ errs = Inr r" by (rule r)
    show "p50Ms r = round2 (Fin (sort ?xs ! spec_index (length ?xs) (1 / 2)))"
      unfolding i by (rule p)
    show "p95Ms r = round2 (Fin (sort ?xs ! spec_index (length ?xs) (95 / 100)))"
      unfolding i by (rule p)
    show "p99Ms r = round2 (Fin (sort ?xs ! spec_index (length ?xs) (99 / 100)))"
      unfolding i by (rule p)
    show "mset ?xs = mset (map rat_of_nat [1..<101]) \<longrightarrow>
      p50Ms r = Fin 51 \<and> p95Ms r = Fin 96 \<and> p99Ms r = Fin 100" by (rule e)
  qed
qed

theorem percentile_floor_index_witness:
  "\<exists>r. calculateStats \<lparr>measurements = rev (map rat_of_nat [1..<101])\<rparr> ''op'' 100 250 100 0 = Inr r \<and>
       p50Ms r = Fin 51 \<and> p95Ms r = Fin 96 \<and> p99Ms r = Fin 100"
proof -
  have ne: "measurements \<lparr>measurements = rev (map rat_of_nat [1..<101])\<rparr> \<noteq> []" by simp
  have m: "mset (measurements \<lparr>measurements = rev (map rat_of_nat [1..<101])\<rparr>) = mset (map rat_of_nat [1..<101])"
    by (simp del: upt_Suc)
  from percentile_floor_index[OF ne, of "''op''" 100 250 100 0] m show ?thesis
    by blast
qed

lemma foldl_plus: "foldl (+) a xs = a + sum_list xs" for a :: rat
  by (induction xs arbitrary: a) (simp_all add: add.assoc)










section \<open>Properties of the batch benchmark\<close>

lemma group_count_iff:
  fixes j k n :: nat
  assumes "0 < k"
  shows "j < (n + k - 1) div k \<longleftrightarrow> j * k < n"
proof -
  have "j < (n + k - 1) div k \<longleftrightarrow> Suc j \<le> (n + k - 1) div k" by auto
  also have "\<dots> \<longleftrightarrow> Suc j * k \<le> n + k - 1"
    using assms by (simp add: less_eq_div_iff_mult_less_eq)
  also have "\<dots> \<longleftrightarrow> j * k < n" using assms by auto
  finally show ?thesis .
qed

lemma js_slice_nat:
  "js_slice xs (int p) (int p + int k) = take k (drop p xs)"
proof (cases "p < length xs")
  case True
  then have "nat (min (int p + int k) (int (length xs)) - min (int p) (int (length xs)))
      = min k (length xs - p)" by (simp add: min_def) linarith
  with True show ?thesis by (simp add: js_slice_def Let_def min_def)
next
  case False
  then show ?thesis by (simp add: js_slice_def Let_def min_def)
qed

lemma js_slice_group:
  "js_slice xs (int (j * k)) (int (j * k) + int k) = take k (drop (j * k) xs)"
  by (rule js_slice_nat)

lemma batches_loop_from:
  assumes "0 < k"
  shows "batches_loop xs (int k) (int (j * k)) acc =
     Some (acc @ map (\<lambda>j. take k (drop (j * k) xs)) [j..<(length xs + k - 1) div k])"
proof (induction "(length xs + k - 1) div k - j" arbitrary: j acc)
  case 0
  then have "\<not> j < (length xs + k - 1) div k" by simp
  then have "\<not> j * k < length xs" using group_count_iff[OF assms] by simp
  with 0 show ?case
    by (subst batches_loop.simps) (simp del: of_nat_mult)
next
  case (Suc d)
  then have lt: "j < (length xs + k - 1) div k" by simp
  then have c: "j * k < length xs" using group_count_iff[OF assms] by simp
  have d: "d = (length xs + k - 1) div k - Suc j" using Suc.hyps(2) by simp
  have s: "int (j * k) + int k = int (Suc j * k)" by simp
  have "batches_loop xs (int k) (int (j * k)) acc =
      batches_loop xs (int k) (int (Suc j * k)) (acc @ [take k (drop (j * k) xs)])"
    using c by (subst batches_loop.simps) (simp only: js_slice_group, simp only: s of_nat_less_iff if_True)
  also have "\<dots> = Some ((acc @ [take k (drop (j * k) xs)]) @
      map (\<lambda>j. take k (drop (j * k) xs)) [Suc j..<(length xs + k - 1) div k])"
    by (rule Suc.hyps(1)[OF d])
  finally show ?case using lt by (simp add: upt_conv_Cons)
qed

lemma batches_loop_groups:
  "0 < k \<Longrightarrow> batches_loop xs (int k) 0 [] = Some (groups_of k xs)"
  using batches_loop_from[of k xs 0 "[]"] by (simp add: groups_of_def)

lemma batches_loop_diverges:
  assumes "batches_loop xs k i acc = Some y"
  shows "\<not> (k \<le> 0 \<and> i < int (length xs))"
  by (rule batches_loop.raw_induct[where P = "\<lambda>xs k i acc y. \<not> (k \<le> 0 \<and> i < int (length xs))", OF _ assms])
    (fastforce split: if_splits)

lemma batches_loop_None:
  "k \<le> 0 \<Longrightarrow> xs \<noteq> [] \<Longrightarrow> batches_loop xs k 0 [] = None"
  using batches_loop_diverges[of xs k 0 "[]"] by (cases "batches_loop xs k 0 []") auto

lemma concat_groups_take:
  "concat (map (\<lambda>j. take k (drop (j * k) xs)) [0..<m]) = take (m * k) xs"
proof (induction m)
  case 0
  show ?case by simp
next
  case (Suc m)
  have "take (m * k) xs @ take k (drop (m * k) xs) = take (m * k + k) xs"
    by (simp add: take_add)
  with Suc show ?case by (simp add: add.commute)
qed

lemma concat_groups_of: "0 < k \<Longrightarrow> concat (groups_of k xs) = xs"
proof -
  assume k: "0 < k"
  have "\<not> ((length xs + k - 1) div k) * k < length xs"
    using group_count_iff[OF k, of "(length xs + k - 1) div k" "length xs"] by simp
  then show ?thesis by (simp add: groups_of_def concat_groups_take)
qed

lemma length_groups_of: "length (groups_of k xs) = (length xs + k - 1) div k"
  by (simp add: groups_of_def)

lemma nth_groups_of:
  "j < length (groups_of k xs) \<Longrightarrow> groups_of k xs ! j = take k (drop (j * k) xs)"
  by (simp add: groups_of_def)

lemma group_sizes:
  assumes k: "0 < k" and j: "j < length (groups_of k xs)"
  shows "0 < length (groups_of k xs ! j)" "length (groups_of k xs ! j) \<le> k"
    "Suc j < length (groups_of k xs) \<Longrightarrow> length (groups_of k xs ! j) = k"
proof -
  have lt: "j * k < length xs" using j group_count_iff[OF k, of j "length xs"] by (simp add: length_groups_of)
  show "0 < length (groups_of k xs ! j)" using lt k by (simp add: nth_groups_of[OF j])
  show "length (groups_of k xs ! j) \<le> k" by (simp add: nth_groups_of[OF j])
  assume "Suc j < length (groups_of k xs)"
  then have "Suc j * k < length xs" using group_count_iff[OF k, of "Suc j" "length xs"] by (simp add: length_groups_of)
  then show "length (groups_of k xs ! j) = k" by (simp add: nth_groups_of[OF j])
qed

lemma batch_testFn_eq: "batch_testFn c bs = Inr (map (map (settle c)) bs)"
  by (induction bs) (simp_all add: Promise_allSettled_def settle_def)

lemma batch_run:
  assumes k: "0 < k"
  shows "benchmarkBatchOperations self client elapsed totalTime endpoints (int k) =
     Some (benchmark_traced self (''Batch Operations (concurrency: '' @ show_int (int k) @ '')'')
             (\<lambda>i. (batch_testFn (client i) (groups_of k endpoints), elapsed i))
             (min 10 (length (groups_of k endpoints))) totalTime)"
  by (simp add: benchmarkBatchOperations_def batches_loop_groups[OF k])

lemma batch_run_eq:
  assumes k: "0 < k"
  shows "benchmarkBatchOperations self client elapsed totalTime endpoints (int k) =
     Some (calculateStats
             (self\<lparr>measurements := map (\<lambda>i. elapsed (Suc i)) [0..<min 10 (length (groups_of k endpoints))]\<rparr>)
             (''Batch Operations (concurrency: '' @ show_int (int k) @ '')'')
             (min 10 (length (groups_of k endpoints))) totalTime
             (min 10 (length (groups_of k endpoints))) 0,
           self\<lparr>measurements := map (\<lambda>i. elapsed (Suc i)) [0..<min 10 (length (groups_of k endpoints))]\<rparr>,
           map (\<lambda>i. Inr (map (map (settle (client i))) (groups_of k endpoints)))
             [0..<Suc (min 10 (length (groups_of k endpoints)))])"
  unfolding batch_run[OF k] benchmark_traced_eq
  by (simp add: batch_testFn_eq del: upt_Suc)

text \<open>
  Claim C4, as the code has it. For a concurrency \<open>k \<ge> 1\<close> the partition loop returns the
  consecutive groups of \<open>k\<close> endpoints (the last group may be shorter, none is empty), and the
  benchmark runs \<open>min(10, numberOfGroups)\<close> iterations. Every call of the timed operation that
  the benchmark makes, the warm-up and each of the trials, walks through all the groups in
  turn and settles every item of every group whatever the other items do, and never rejects:
  every iteration is a success and contributes one sample, the elapsed time of a pass over all
  groups. Twelve endpoints with concurrency 5 give 3 groups and 3 iterations.
\<close>

theorem batch_benchmark_groups:
  assumes k: "0 < k"
  shows "\<exists>bs result self' calls.
     batches_loop endpoints (int k) 0 [] = Some bs \<and>
     concat bs = endpoints \<and>
     length bs = (length endpoints + k - 1) div k \<and>
     (\<forall>j < length bs. bs ! j = take k (drop (j * k) endpoints) \<and>
        0 < length (bs ! j) \<and> length (bs ! j) \<le> k \<and>
        (Suc j < length bs \<longrightarrow> length (bs ! j) = k)) \<and>
     (\<forall>c. batch_testFn c bs = Inr (map (map (settle c)) bs)) \<and>
     benchmarkBatchOperations self client elapsed totalTime endpoints (int k) =
       Some (result, self', calls) \<and>
     calls = map (\<lambda>i. Inr (map (map (settle (client i))) bs)) [0..<Suc (min 10 (length bs))] \<and>
     measurements self' = map (\<lambda>i. elapsed (Suc i)) [0..<min 10 (length bs)] \<and>
     (\<forall>r. result = Inr r \<longrightarrow>
        iterations r = min 10 (length bs) \<and> success r = iterations r \<and> errors r = 0) \<and>
     (endpoints \<noteq> [] \<longrightarrow> (\<exists>r. result = Inr r)) \<and>
     (length endpoints = 12 \<and> k = 5 \<longrightarrow> length bs = 3 \<and> min 10 (length bs) = 3)"
proof -
  let ?bs = "groups_of k endpoints"
  let ?n = "min 10 (length ?bs)"
  let ?self' = "self\<lparr>measurements := map (\<lambda>i. elapsed (Suc i)) [0..<?n]\<rparr>"
  let ?result = "calculateStats ?self'
      (''Batch Operations (concurrency: '' @ show_int (int k) @ '')'') ?n totalTime ?n 0"
  let ?calls = "map (\<lambda>i. Inr (map (map (settle (client i))) ?bs)) [0..<Suc ?n]"
  have 1: "batches_loop endpoints (int k) 0 [] = Some ?bs" by (rule batches_loop_groups[OF k])
  have 2: "concat ?bs = endpoints" by (rule concat_groups_of[OF k])
  have 3: "length ?bs = (length endpoints + k - 1) div k" by (rule length_groups_of)
  have 4: "\<forall>j < length ?bs. ?bs ! j = take k (drop (j * k) endpoints) \<and>
        0 < length (?bs ! j) \<and> length (?bs ! j) \<le> k \<and>
        (Suc j < length ?bs \<longrightarrow> length (?bs ! j) = k)"
    using group_sizes[OF k] nth_groups_of by blast
  have 5: "\<forall>c. batch_testFn c ?bs = Inr (map (map (settle c)) ?bs)"
    by (simp add: batch_testFn_eq)
  have 6: "benchmarkBatchOperations self client elapsed totalTime endpoints (int k) =
      Some (?result, ?self', ?calls)"
    by (rule batch_run_eq[OF k])
  have 7: "measurements ?self' = map (\<lambda>i. elapsed (Suc i)) [0..<?n]" by simp
  have 8: "\<forall>r. ?result = Inr r \<longrightarrow>
        iterations r = ?n \<and> success r = iterations r \<and> errors r = 0"
    by (auto dest!: calculateStats_fields)
  have 9: "endpoints \<noteq> [] \<longrightarrow> (\<exists>r. ?result = Inr r)"
  proof
    assume "endpoints \<noteq> []"
    then have "0 * k < length endpoints" by simp
    then have "0 < length ?bs" using group_count_iff[OF k, of 0 "length endpoints"]
      by (simp add: length_groups_of)
    then have "measurements ?self' \<noteq> []" by simp
    from calculateStats_nonempty[OF this] show "\<exists>r. ?result = Inr r" by simp
  qed
  have 10: "length endpoints = 12 \<and> k = 5 \<longrightarrow> length ?bs = 3 \<and> ?n = 3"
    by (simp add: length_groups_of)
  show ?thesis
    by (rule exI[of _ ?bs], rule exI[of _ ?result], rule exI[of _ ?self'], rule exI[of _ ?calls])
      (intro conjI 1 2 3 4 5 6 refl 7 8 9 10)
qed

lemma groups_twelve:
  "groups_of 5 twelve_endpoints =
     [[''http://localhost:3000/api0'', ''http://localhost:3000/api1'',
       ''http://localhost:3000/api2'', ''http://localhost:3000/api3'',
       ''http://localhost:3000/api4''],
      [''http://localhost:3000/api5'', ''http://localhost:3000/api6'',
       ''http://localhost:3000/api7'', ''http://localhost:3000/api8'',
       ''http://localhost:3000/api9''],
      [''http://localhost:3000/api10'', ''http://localhost:3000/api11'']]"
  by (simp add: groups_of_def twelve_endpoints_def upt_rec)

lemma settle_Response: "settle (\<lambda>e. Response) e = Fulfilled"
  by (simp add: settle_def guarded_get_def)

theorem batch_benchmark_groups_witness:
  "\<exists>result self'.
     benchmarkBatchOperations \<lparr>measurements = []\<rparr> (\<lambda>i e. Response) (\<lambda>i. 40) 120
        twelve_endpoints 5 =
       Some (result, self',
         replicate 4
           (Inr [[Fulfilled, Fulfilled, Fulfilled, Fulfilled, Fulfilled],
                 [Fulfilled, Fulfilled, Fulfilled, Fulfilled, Fulfilled],
                 [Fulfilled, Fulfilled]])) \<and>
     measurements self' = [40, 40, 40] \<and>
     (\<exists>r. result = Inr r \<and> iterations r = 3 \<and> success r = 3 \<and> errors r = 0)"
proof -
  have k: "0 < (5::nat)" by simp
  have ne: "twelve_endpoints \<noteq> []" by (simp add: twelve_endpoints_def)
  have len: "length twelve_endpoints = 12" by (simp add: twelve_endpoints_def)
  from batch_benchmark_groups[OF k, of twelve_endpoints "\<lparr>measurements = []\<rparr>" "\<lambda>i e. Response" "\<lambda>i. 40" 120]
  obtain bs result self' calls where
    a: "batches_loop twelve_endpoints (int 5) 0 [] = Some bs"
    and b: "benchmarkBatchOperations \<lparr>measurements = []\<rparr> (\<lambda>i e. Response) (\<lambda>i. 40) 120
        twelve_endpoints (int 5) = Some (result, self', calls)"
    and c: "calls = map (\<lambda>i. Inr (map (map (settle (\<lambda>e. Response))) bs)) [0..<Suc (min 10 (length bs))]"
    and m: "measurements self' = map (\<lambda>i. 40) [0..<min 10 (length bs)]"
    and d: "\<forall>r. result = Inr r \<longrightarrow>
        iterations r = min 10 (length bs) \<and> success r = iterations r \<and> errors r = 0"
    and e: "twelve_endpoints \<noteq> [] \<longrightarrow> (\<exists>r. result = Inr r)"
    and f: "length twelve_endpoints = 12 \<and> (5::nat) = 5 \<longrightarrow> length bs = 3 \<and> min 10 (length bs) = 3"
    by blast
  from f len have l3: "length bs = 3" by simp
  from a have bs: "bs = groups_of 5 twelve_endpoints"
    using batches_loop_groups[OF k, of twelve_endpoints] by simp
  from c l3 have c': "calls = replicate 4
           (Inr [[Fulfilled, Fulfilled, Fulfilled, Fulfilled, Fulfilled],
                 [Fulfilled, Fulfilled, Fulfilled, Fulfilled, Fulfilled],
                 [Fulfilled, Fulfilled]])"
    unfolding bs groups_twelve by (simp add: settle_Response upt_rec numeral_eq_Suc)
  from e ne obtain r where r: "result = Inr r" by blast
  with d l3 have r3: "iterations r = 3 \<and> success r = 3 \<and> errors r = 0" by simp
  from m l3 have m3: "measurements self' = [40, 40, 40]" by (simp add: upt_rec)
  from b c' m3 r r3 show ?thesis by auto
qed

text \<open>
  Claim C4 as stated has one trial time one group. For twelve responding endpoints and
  concurrency 5, each of the four calls of the timed operation that the benchmark makes, the
  warm-up and the three trials, settles all three groups: no trial is the execution of one
  group.
\<close>

theorem batch_trial_counterexample:
  "map_option (\<lambda>out. snd (snd out))
     (benchmarkBatchOperations \<lparr>measurements = []\<rparr> (\<lambda>i e. Response) (\<lambda>i. 40) 120
        twelve_endpoints 5) =
     Some (replicate 4
             (Inr [[Fulfilled, Fulfilled, Fulfilled, Fulfilled, Fulfilled],
                   [Fulfilled, Fulfilled, Fulfilled, Fulfilled, Fulfilled],
                   [Fulfilled, Fulfilled]])) \<and>
   \<not> one_group_per_trial (\<lambda>i e. Response) (groups_of 5 twelve_endpoints)
       (replicate 4
             (Inr [[Fulfilled, Fulfilled, Fulfilled, Fulfilled, Fulfilled],
                   [Fulfilled, Fulfilled, Fulfilled, Fulfilled, Fulfilled],
                   [Fulfilled, Fulfilled]]))"
proof -
  have len: "min 10 (length (groups_of 5 twelve_endpoints)) = 3"
    by (simp add: groups_twelve)
  have u: "[0..<Suc 3] = [0, 1, 2, 3]"
    by (simp add: upt_rec)
  have rp: "replicate 4 x = [x, x, x, x]" for x :: "error + settled list list"
    by (simp add: numeral_eq_Suc)
  have "benchmarkBatchOperations \<lparr>measurements = []\<rparr> (\<lambda>i e. Response) (\<lambda>i. 40) 120
        twelve_endpoints (int 5) =
      Some (calculateStats
             (\<lparr>measurements = []\<rparr>\<lparr>measurements := map (\<lambda>i. 40) [0..<min 10 (length (groups_of 5 twelve_endpoints))]\<rparr>)
             (''Batch Operations (concurrency: '' @ show_int (int 5) @ '')'')
             (min 10 (length (groups_of 5 twelve_endpoints))) 120
             (min 10 (length (groups_of 5 twelve_endpoints))) 0,
           \<lparr>measurements = []\<rparr>\<lparr>measurements := map (\<lambda>i. 40) [0..<min 10 (length (groups_of 5 twelve_endpoints))]\<rparr>,
           map (\<lambda>i. Inr (map (map (settle (\<lambda>e. Response))) (groups_of 5 twelve_endpoints)))
             [0..<Suc (min 10 (length (groups_of 5 twelve_endpoints)))])"
    by (rule batch_run_eq) simp
  then have "map_option (\<lambda>out. snd (snd out))
     (benchmarkBatchOperations \<lparr>measurements = []\<rparr> (\<lambda>i e. Response) (\<lambda>i. 40) 120
        twelve_endpoints (int 5)) =
     Some (map (\<lambda>i. Inr (map (map (settle (\<lambda>e. Response))) (groups_of 5 twelve_endpoints)))
             [0..<Suc 3])"
    unfolding len by simp
  then have a: "map_option (\<lambda>out. snd (snd out))
     (benchmarkBatchOperations \<lparr>measurements = []\<rparr> (\<lambda>i e. Response) (\<lambda>i. 40) 120
        twelve_endpoints 5) =
     Some (replicate 4
             (Inr [[Fulfilled, Fulfilled, Fulfilled, Fulfilled, Fulfilled],
                   [Fulfilled, Fulfilled, Fulfilled, Fulfilled, Fulfilled],
                   [Fulfilled, Fulfilled]]))"
    unfolding u rp groups_twelve by (simp add: settle_Response)
  have b: "\<not> one_group_per_trial (\<lambda>i e. Response) (groups_of 5 twelve_endpoints)
       (replicate 4
             (Inr [[Fulfilled, Fulfilled, Fulfilled, Fulfilled, Fulfilled],
                   [Fulfilled, Fulfilled, Fulfilled, Fulfilled, Fulfilled],
                   [Fulfilled, Fulfilled]]))"
    unfolding rp groups_twelve by (simp add: one_group_per_trial_def upt_rec)
  from a b show ?thesis by (rule conjI)
qed

section \<open>Properties of the network analyzer\<close>

lemma Promise_all_Inr: "Promise_all (map (\<lambda>x. Inr (f x)) xs) = Inr (map f xs)"
  by (induction xs) simp_all

lemma measureFacilitatorLatency_eq:
  "measureFacilitatorLatency net u = Inr (probe_latency (net (Get (u @ ''/supported''))))"
  by (simp add: measureFacilitatorLatency_def probe_latency_def split: sum.splits)

lemma measureRpcLatency_eq:
  "measureRpcLatency net u = Inr (probe_latency (net (PostBlockNumber u)))"
  by (simp add: measureRpcLatency_def probe_latency_def split: sum.splits)

lemma analyzeNetwork_eq:
  "analyzeNetwork net =
     Inr \<lparr> facilitatorLatency =
             class_latency (map (\<lambda>u. probe_latency (net (Get (u @ ''/supported'')))) facilitators),
           rpcLatency = class_latency (map (\<lambda>u. probe_latency (net (PostBlockNumber u))) rpcEndpoints),
           totalRoundTrips = length facilitators + length rpcEndpoints,
           dataTransferred = 0 \<rparr>"
  unfolding analyzeNetwork_def measureFacilitatorLatency_eq measureRpcLatency_eq Promise_all_Inr
  by simp

lemma filter_probe_latency:
  "filter (\<lambda>l. l > 0) (map probe_latency ps) = filter (\<lambda>t. 0 < t) (successes ps)"
  by (induction ps) (auto simp add: successes_def probe_latency_def map_filter_simps split: sum.splits)

lemma class_latency_positive_mean:
  "class_latency (map probe_latency ps) = positive_mean ps"
  by (simp add: class_latency_def positive_mean_def filter_probe_latency Let_def foldl_plus js_length_def)

lemma class_latency_all_failed:
  "\<forall>p\<in>set ps. isl p \<Longrightarrow> class_latency (map probe_latency ps) = Fin (- 1)"
proof -
  assume "\<forall>p\<in>set ps. isl p"
  then have "successes ps = []"
    by (induction ps) (auto simp add: successes_def map_filter_simps split: sum.splits)
  then show ?thesis by (simp add: class_latency_positive_mean positive_mean_def)
qed

text \<open>
  Claim C6. \<^verbatim>\<open>analyzeNetwork\<close> returns metrics on every network, it never throws;
  \<open>totalRoundTrips\<close> is the number of configured endpoints, six, whatever the probes do; and
  when every probe of a class fails, the latency of that class is the sentinel \<open>-1\<close>, which is
  neither zero nor \<^verbatim>\<open>NaN\<close>.
\<close>

theorem analyzeNetwork_never_throws:
  "\<exists>m. analyzeNetwork net = Inr m \<and>
       totalRoundTrips m = length facilitators + length rpcEndpoints \<and> totalRoundTrips m = 6 \<and>
       ((\<forall>u\<in>set facilitators. isl (net (Get (u @ ''/supported'')))) \<longrightarrow>
          facilitatorLatency m = Fin (- 1) \<and> facilitatorLatency m \<noteq> Fin 0 \<and> facilitatorLatency m \<noteq> NaN) \<and>
       ((\<forall>u\<in>set rpcEndpoints. isl (net (PostBlockNumber u))) \<longrightarrow>
          rpcLatency m = Fin (- 1) \<and> rpcLatency m \<noteq> Fin 0 \<and> rpcLatency m \<noteq> NaN)"
proof -
  have f: "(\<forall>u\<in>set facilitators. isl (net (Get (u @ ''/supported'')))) \<Longrightarrow>
      class_latency (map (\<lambda>u. probe_latency (net (Get (u @ ''/supported'')))) facilitators) = Fin (- 1)"
    using class_latency_all_failed[of "map (\<lambda>u. net (Get (u @ ''/supported''))) facilitators"]
    by (simp add: comp_def)
  have r: "(\<forall>u\<in>set rpcEndpoints. isl (net (PostBlockNumber u))) \<Longrightarrow>
      class_latency (map (\<lambda>u. probe_latency (net (PostBlockNumber u))) rpcEndpoints) = Fin (- 1)"
    using class_latency_all_failed[of "map (\<lambda>u. net (PostBlockNumber u)) rpcEndpoints"]
    by (simp add: comp_def)
  have six: "length facilitators + length rpcEndpoints = 6"
    by (simp add: facilitators_def rpcEndpoints_def)
  show ?thesis
    unfolding analyzeNetwork_eq using f r six by simp
qed

theorem analyzeNetwork_never_throws_witness:
  "analyzeNetwork dead_net =
     Inr \<lparr> facilitatorLatency = Fin (- 1), rpcLatency = Fin (- 1), totalRoundTrips = 6,
           dataTransferred = 0 \<rparr>"
proof -
  from analyzeNetwork_never_throws[of dead_net] obtain m where
    m: "analyzeNetwork dead_net = Inr m" and t: "totalRoundTrips m = 6"
    and f: "facilitatorLatency m = Fin (- 1)" and r: "rpcLatency m = Fin (- 1)"
    by (auto simp add: dead_net_def)
  from m have "dataTransferred m = 0" by (auto simp add: analyzeNetwork_eq)
  with m t f r show ?thesis by simp
qed

text \<open>
  Claim C7, as the code has it. The latency of a class is the mean of the strictly positive
  elapsed times of its probes that completed, and the sentinel when there is none: a failed
  probe and a probe that measured zero are both left out.
\<close>

theorem analyzeNetwork_positive_mean:
  "\<exists>m. analyzeNetwork net = Inr m \<and>
       facilitatorLatency m = positive_mean (map (\<lambda>u. net (Get (u @ ''/supported''))) facilitators) \<and>
       rpcLatency m = positive_mean (map (\<lambda>u. net (PostBlockNumber u)) rpcEndpoints)"
  using class_latency_positive_mean[of "map (\<lambda>u. net (Get (u @ ''/supported''))) facilitators"]
    class_latency_positive_mean[of "map (\<lambda>u. net (PostBlockNumber u)) rpcEndpoints"]
  by (simp add: analyzeNetwork_eq comp_def)

text \<open>
  Claim C7 as stated has every successful probe count, a measurement of zero included. On a
  network where the facilitators measure 0 ms, 30 ms and a failure, the code reports 30 ms,
  the mean of the one positive measurement; the mean of the two successful probes is 15 ms.
\<close>

theorem zero_latency_counterexample:
  "analyzeNetwork zero_latency_net =
     Inr \<lparr> facilitatorLatency = Fin 30, rpcLatency = Fin (- 1), totalRoundTrips = 6,
           dataTransferred = 0 \<rparr> \<and>
   spec_class_latency (map (\<lambda>u. zero_latency_net (Get (u @ ''/supported''))) facilitators) = Fin 15"
  by (simp add: analyzeNetwork_eq zero_latency_net_def facilitators_def rpcEndpoints_def
      class_latency_def probe_latency_def js_length_def spec_class_latency_def successes_def
      map_filter_simps)

theorem analyzeNetwork_positive_mean_witness:
  "\<exists>m. analyzeNetwork zero_latency_net = Inr m \<and> facilitatorLatency m = Fin 30 \<and> rpcLatency m = Fin (- 1)"
  using analyzeNetwork_positive_mean[of zero_latency_net]
  by (simp add: zero_latency_net_def facilitators_def rpcEndpoints_def positive_mean_def
      successes_def map_filter_simps)

section \<open>Properties of the recommendation engine\<close>

lemma recommendations_of_eq:
  "recommendations_of results networkMetrics =
     (if high_latency_rule results then high_latency_block else []) @
     (if facilitator_rule networkMetrics then facilitator_block else []) @
     (if error_rate_rule results then error_rate_block else []) @
     (if low_throughput_rule results then low_throughput_block else [])"
  by (simp add: recommendations_of_def Let_def high_latency_rule_def facilitator_rule_def
      error_rate_rule_def low_throughput_rule_def)

lemma displayOptimizations_eq:
  "displayOptimizations results networkMetrics =
     banner @ (if recommendations_of results networkMetrics = [] then [no_action_line]
               else map render (recommendations_of results networkMetrics))"
  by (simp add: displayOptimizations_def Let_def render_def)

lemma blocks_nonempty:
  "high_latency_block \<noteq> []" "facilitator_block \<noteq> []" "error_rate_block \<noteq> []"
  "low_throughput_block \<noteq> []"
  by (simp_all add: high_latency_block_def facilitator_block_def error_rate_block_def
      low_throughput_block_def)

lemma single_rules:
  "high_latency_rule [r] = jgt (avgTimeMs r) (Fin 500)"
  "error_rate_rule [r] = jgt (errorRate r) (Fin 5)"
  "low_throughput_rule [r] = jlt (opsPerSecond r) (Fin 10)"
proof -
  have a: "jdiv (jadd (Fin 0) x) (Fin 1) = x" for x by (cases x) simp_all
  show "high_latency_rule [r] = jgt (avgTimeMs r) (Fin 500)"
    by (simp add: high_latency_rule_def js_length_def a)
  show "error_rate_rule [r] = jgt (errorRate r) (Fin 5)"
    by (simp add: error_rate_rule_def)
  have b: "jmax2 NInf x = x" for x by (cases x) simp_all
  show "low_throughput_rule [r] = jlt (opsPerSecond r) (Fin 10)"
    by (simp add: low_throughput_rule_def Math_max_def b)
qed

lemma headings_high: "headings high_latency_block = [''High average latency detected. Consider:'']"
  by (simp add: headings_def high_latency_block_def startsWith_def)

text \<open>
  Claim C8. For all inputs the list of recommendations is the block of each rule that fires,
  the four rules taken in the order of the table, and the output is the banner followed by
  the entries in that order. For a single result with \<open>avgTimeMs = 600\<close>, \<open>errorRate = 0\<close>,
  \<open>opsPerSecond = 50\<close> and a facilitator latency of 50, the list is the high-latency block
  alone: one heading, the high-average-latency one, and its suggestions.
\<close>

theorem rules_in_table_order:
  "recommendations_of results networkMetrics =
     (if high_latency_rule results then high_latency_block else []) @
     (if facilitator_rule networkMetrics then facilitator_block else []) @
     (if error_rate_rule results then error_rate_block else []) @
     (if low_throughput_rule results then low_throughput_block else []) \<and>
   displayOptimizations results networkMetrics =
     banner @ (if recommendations_of results networkMetrics = [] then [no_action_line]
               else map render (recommendations_of results networkMetrics)) \<and>
   (avgTimeMs r = Fin 600 \<and> errorRate r = Fin 0 \<and> opsPerSecond r = Fin 50 \<and>
    facilitatorLatency networkMetrics = Fin 50 \<longrightarrow>
      recommendations_of [r] networkMetrics = high_latency_block \<and>
      headings (recommendations_of [r] networkMetrics) = [''High average latency detected. Consider:''] \<and>
      displayOptimizations [r] networkMetrics = banner @ map render high_latency_block)"
proof -
  have "avgTimeMs r = Fin 600 \<and> errorRate r = Fin 0 \<and> opsPerSecond r = Fin 50 \<and>
      facilitatorLatency networkMetrics = Fin 50 \<longrightarrow>
        recommendations_of [r] networkMetrics = high_latency_block"
    by (simp add: recommendations_of_eq single_rules facilitator_rule_def jgt_def)
  then show ?thesis
    using recommendations_of_eq[of results networkMetrics] displayOptimizations_eq[of results networkMetrics]
      displayOptimizations_eq[of "[r]" networkMetrics] headings_high blocks_nonempty(1)
    by simp
qed

theorem rules_in_table_order_witness:
  "recommendations_of [slow_result] near_network = high_latency_block \<and>
   displayOptimizations [slow_result] near_network =
     banner @
     [Yellow ''  High average latency detected. Consider:'',
      Gray ''  * Using a closer RPC endpoint'',
      Gray ''  * Implementing request caching'',
      Gray ''  * Using connection pooling'']"
proof -
  have h: "avgTimeMs slow_result = Fin 600 \<and> errorRate slow_result = Fin 0 \<and>
      opsPerSecond slow_result = Fin 50 \<and> facilitatorLatency near_network = Fin 50"
    by (simp add: slow_result_def near_network_def)
  from rules_in_table_order[of "[slow_result]" near_network slow_result] h
  have a: "recommendations_of [slow_result] near_network = high_latency_block"
    and b: "displayOptimizations [slow_result] near_network = banner @ map render high_latency_block"
    by blast+
  show ?thesis
    unfolding a b by (simp add: render_def startsWith_def high_latency_block_def)
qed

text \<open>
  Claim C9. When no rule fires the list of recommendations is empty and the output after the
  banner is the single positive message; this is the case for a result with
  \<open>avgTimeMs = 50\<close>, \<open>errorRate = 0\<close>, \<open>opsPerSecond = 100\<close> and a facilitator latency of 50.
  The output after the banner is never empty.
\<close>

theorem no_rule_fires:
  "(\<not> high_latency_rule results \<and> \<not> facilitator_rule networkMetrics \<and>
    \<not> error_rate_rule results \<and> \<not> low_throughput_rule results \<longrightarrow>
      recommendations_of results networkMetrics = [] \<and>
      displayOptimizations results networkMetrics = banner @ [no_action_line]) \<and>
   (avgTimeMs r = Fin 50 \<and> errorRate r = Fin 0 \<and> opsPerSecond r = Fin 100 \<and>
    facilitatorLatency networkMetrics = Fin 50 \<longrightarrow>
      displayOptimizations [r] networkMetrics = banner @ [no_action_line]) \<and>
   drop (length banner) (displayOptimizations results networkMetrics) \<noteq> []"
proof -
  have a: "\<not> high_latency_rule results \<and> \<not> facilitator_rule networkMetrics \<and>
    \<not> error_rate_rule results \<and> \<not> low_throughput_rule results \<longrightarrow>
      recommendations_of results networkMetrics = [] \<and>
      displayOptimizations results networkMetrics = banner @ [no_action_line]"
    by (simp add: displayOptimizations_eq recommendations_of_eq)
  have b: "avgTimeMs r = Fin 50 \<and> errorRate r = Fin 0 \<and> opsPerSecond r = Fin 100 \<and>
    facilitatorLatency networkMetrics = Fin 50 \<longrightarrow>
      displayOptimizations [r] networkMetrics = banner @ [no_action_line]"
    by (simp add: displayOptimizations_eq recommendations_of_eq single_rules facilitator_rule_def jgt_def)
  have c: "drop (length banner) (displayOptimizations results networkMetrics) \<noteq> []"
    by (simp add: displayOptimizations_eq)
  from a b c show ?thesis by (simp only: simp_thms)
qed

theorem no_rule_fires_witness:
  "displayOptimizations [good_result] near_network =
     [Blue (CHR 0x0A # '' Performance Optimization Recommendations''),
      Gray (replicate 80 (CHR ''='')),
      Green '' Performance looks good! No immediate optimizations needed.'']"
  using no_rule_fires[of "[good_result]" near_network good_result]
  by (simp add: good_result_def near_network_def banner_def no_action_line_def)

lemma jle_not_jgt: "jle a b \<Longrightarrow> \<not> jgt a b"
  by (cases a; cases b) (auto simp add: jle_def jgt_def)

text \<open>
  Claim C10. For no result at all and a facilitator latency of at most 200, the maximum of
  \<open>opsPerSecond\<close> is \<^verbatim>\<open>-Infinity\<close>, the mean of \<open>avgTimeMs\<close> is \<^verbatim>\<open>NaN\<close>, so the
  high-latency rule does not fire and the low-throughput rule does: the output is the
  low-throughput recommendation, and the positive message is not printed.
\<close>

theorem empty_results_low_throughput:
  "jle (facilitatorLatency networkMetrics) (Fin 200) \<Longrightarrow>
     Math_max (map opsPerSecond []) = NInf \<and>
     jdiv (foldl (\<lambda>sum r. jadd sum (avgTimeMs r)) (Fin 0) []) (js_length []) = NaN \<and>
     \<not> high_latency_rule [] \<and> low_throughput_rule [] \<and>
     recommendations_of [] networkMetrics = low_throughput_block \<and>
     displayOptimizations [] networkMetrics = banner @ map render low_throughput_block \<and>
     no_action_line \<notin> set (displayOptimizations [] networkMetrics)"
proof -
  assume "jle (facilitatorLatency networkMetrics) (Fin 200)"
  then have f: "\<not> facilitator_rule networkMetrics" by (simp add: facilitator_rule_def jle_not_jgt)
  have m: "Math_max (map opsPerSecond []) = NInf" by (simp add: Math_max_def)
  have n: "jdiv (foldl (\<lambda>sum r. jadd sum (avgTimeMs r)) (Fin 0) []) (js_length []) = NaN"
    by (simp add: js_length_def)
  have h: "\<not> high_latency_rule []" by (simp add: high_latency_rule_def js_length_def jgt_def)
  have l: "low_throughput_rule []" by (simp add: low_throughput_rule_def Math_max_def)
  have e: "\<not> error_rate_rule []" by (simp add: error_rate_rule_def)
  have r: "recommendations_of [] networkMetrics = low_throughput_block"
    using f h l e by (simp add: recommendations_of_eq)
  have d: "displayOptimizations [] networkMetrics = banner @ map render low_throughput_block"
    using r blocks_nonempty(4) by (simp add: displayOptimizations_eq)
  have "no_action_line \<notin> set (banner @ map render low_throughput_block)"
    by (auto simp add: no_action_line_def banner_def render_def low_throughput_block_def)
  with m n h l r d show ?thesis by simp
qed

theorem empty_results_low_throughput_witness:
  "displayOptimizations [] near_network =
     banner @
     [Yellow ''  Low throughput detected. Consider:'',
      Gray ''  * Batching requests when possible'',
      Gray ''  * Using connection keep-alive'',
      Gray ''  * Optimizing payload sizes'']"
proof -
  have "jle (facilitatorLatency near_network) (Fin 200)"
    by (simp add: near_network_def jle_def)
  from empty_results_low_throughput[OF this]
  have d: "displayOptimizations [] near_network = banner @ map render low_throughput_block"
    by blast
  show ?thesis
    unfolding d by (simp add: render_def startsWith_def low_throughput_block_def)
qed

end
